theory Spec2Isabelle
  imports Complex_Main
begin

section \<open>Strings as the segmenter reads them\<close>

text \<open>
  A JavaScript string is read one code unit at a time. The model is a HOL \<open>string\<close>
  (a list of 8-bit characters), which covers every code unit below 256; the character
  classes are those of the regular expressions of \<^verbatim>\<open>chunking.ts\<close> restricted to that range.
\<close>

definition code :: "char \<Rightarrow> nat" where
  "code c = of_char c"

text \<open>\<^verbatim>\<open>/[a-z]/\<close>, \<^verbatim>\<open>/[A-Z]/\<close>, \<^verbatim>\<open>/[a-zA-Z]/\<close>, \<^verbatim>\<open>/\d/\<close>.\<close>

definition isLower :: "char \<Rightarrow> bool" where
  "isLower c \<longleftrightarrow> 97 \<le> code c \<and> code c \<le> 122"

definition isUpper :: "char \<Rightarrow> bool" where
  "isUpper c \<longleftrightarrow> 65 \<le> code c \<and> code c \<le> 90"

definition isLetter :: "char \<Rightarrow> bool" where
  "isLetter c \<longleftrightarrow> isLower c \<or> isUpper c"

definition isDigit :: "char \<Rightarrow> bool" where
  "isDigit c \<longleftrightarrow> 48 \<le> code c \<and> code c \<le> 57"

text \<open>
  \<^verbatim>\<open>/\s/\<close>, which is also what \<^verbatim>\<open>trim()\<close> strips: tab, line feed, vertical tab, form
  feed, carriage return, space and the no-break space.
\<close>

definition isSpace :: "char \<Rightarrow> bool" where
  "isSpace c \<longleftrightarrow> (9 \<le> code c \<and> code c \<le> 13) \<or> code c = 32 \<or> code c = 160"

text \<open>\<^verbatim>\<open>/[.!?]/\<close> and \<^verbatim>\<open>/["']/\<close>.\<close>

definition sentenceEnders :: "char \<Rightarrow> bool" where
  "sentenceEnders c \<longleftrightarrow> c = CHR ''.'' \<or> c = CHR ''!'' \<or> c = CHR ''?''"

definition isQuote :: "char \<Rightarrow> bool" where
  "isQuote c \<longleftrightarrow> code c = 34 \<or> code c = 39"

text \<open>\<^verbatim>\<open>text[i]\<close>: \<open>undefined\<close> (here \<open>None\<close>) past the end of the string.\<close>

definition charAt :: "string \<Rightarrow> nat \<Rightarrow> char option" where
  "charAt s i = (if i < length s then Some (s ! i) else None)"

text \<open>\<^verbatim>\<open>s.slice(a, b)\<close> and \<^verbatim>\<open>s.slice(a)\<close> for indices that are not negative.\<close>

definition slice :: "'a list \<Rightarrow> nat \<Rightarrow> nat \<Rightarrow> 'a list" where
  "slice s a b = take (b - a) (drop a s)"

definition sliceFrom :: "'a list \<Rightarrow> nat \<Rightarrow> 'a list" where
  "sliceFrom s a = drop a s"

text \<open>\<^verbatim>\<open>toLowerCase()\<close> on the letters A to Z; the other code units below 128 are fixed.\<close>

definition toLowerChar :: "char \<Rightarrow> char" where
  "toLowerChar c = (if isUpper c then char_of (code c + 32) else c)"

definition toLowerCase :: "string \<Rightarrow> string" where
  "toLowerCase s = map toLowerChar s"

text \<open>\<^verbatim>\<open>trim()\<close>.\<close>

definition trim :: "string \<Rightarrow> string" where
  "trim s = rev (dropWhile isSpace (rev (dropWhile isSpace s)))"

text \<open>\<^verbatim>\<open>replace(/\s+/g, ' ')\<close>: every maximal run of whitespace becomes one space.\<close>

function collapseSpaces :: "string \<Rightarrow> string" where
  "collapseSpaces [] = []"
| "collapseSpaces (c # cs) =
     (if isSpace c then CHR '' '' # collapseSpaces (dropWhile isSpace cs)
      else c # collapseSpaces cs)"
  by pat_completeness auto
termination
  by (relation "measure length") (auto simp: less_Suc_eq_le length_dropWhile_le)

text \<open>\<^verbatim>\<open>parts.join(' ')\<close>.\<close>

fun joinSpace :: "string list \<Rightarrow> string" where
  "joinSpace [] = []"
| "joinSpace [s] = s"
| "joinSpace (s # t # ss) = s @ CHR '' '' # joinSpace (t # ss)"

text \<open>
  The regular expressions that look past the punctuation mark, each on the string it is
  tested against.
  \<^item> \<^verbatim>\<open>/^\s+([A-Z])/\<close>: at least one whitespace, then an upper-case letter. The run of
    whitespace is maximal, because no upper-case letter is whitespace.
  \<^item> \<^verbatim>\<open>/^\s+([A-Z]\.)/\<close>: the same, then a period.
  \<^item> \<^verbatim>\<open>/^\s+[a-z]/\<close> and \<^verbatim>\<open>/^\s+[A-Z"]/\<close>: likewise.
  \<^item> \<^verbatim>\<open>/^\s*$/\<close>: nothing but whitespace up to the end.
\<close>

definition afterSpaces :: "string \<Rightarrow> string option" where
  "afterSpaces s =
     (case s of [] \<Rightarrow> None
      | c # cs \<Rightarrow> if isSpace c then Some (dropWhile isSpace cs) else None)"

definition matchSpaceUpper :: "string \<Rightarrow> bool" where
  "matchSpaceUpper s =
     (case afterSpaces s of Some (c # _) \<Rightarrow> isUpper c | _ \<Rightarrow> False)"

definition matchSpaceUpperDot :: "string \<Rightarrow> bool" where
  "matchSpaceUpperDot s =
     (case afterSpaces s of Some (c # d # _) \<Rightarrow> isUpper c \<and> d = CHR ''.'' | _ \<Rightarrow> False)"

definition matchSpaceLower :: "string \<Rightarrow> bool" where
  "matchSpaceLower s =
     (case afterSpaces s of Some (c # _) \<Rightarrow> isLower c | _ \<Rightarrow> False)"

definition matchSpaceUpperOrQuote :: "string \<Rightarrow> bool" where
  "matchSpaceUpperOrQuote s =
     (case afterSpaces s of Some (c # _) \<Rightarrow> isUpper c \<or> code c = 34 | _ \<Rightarrow> False)"

definition onlySpaces :: "string \<Rightarrow> bool" where
  "onlySpaces s \<longleftrightarrow> list_all isSpace s"

section \<open>The segmenter (\<^verbatim>\<open>chunking.ts\<close>)\<close>

definition ABBREVIATIONS :: "string list" where
  "ABBREVIATIONS =
    [''mr'', ''mrs'', ''ms'', ''dr'', ''prof'', ''sr'', ''jr'', ''vs'', ''etc'', ''inc'', ''ltd'', ''co'',
     ''corp'', ''st'', ''ave'', ''blvd'', ''rd'', ''dept'', ''govt'', ''univ'', ''jan'', ''feb'', ''mar'',
     ''apr'', ''jun'', ''jul'', ''aug'', ''sep'', ''oct'', ''nov'', ''dec'', ''mon'', ''tue'', ''wed'',
     ''thu'', ''fri'', ''sat'', ''sun'', ''no'', ''nos'', ''vol'', ''vols'', ''rev'', ''est'', ''approx'',
     ''fig'', ''figs'', ''eg'', ''ie'', ''cf'', ''al'', ''et'']"

text \<open>
  \<^verbatim>\<open>getWordBefore\<close>: \<open>wordStart text k\<close> is the loop that walks \<open>start\<close> down from
  \<open>k - 1\<close> while \<open>text[start]\<close> is a letter, and returns \<open>start + 1\<close>.
\<close>

fun wordStart :: "string \<Rightarrow> nat \<Rightarrow> nat" where
  "wordStart s 0 = 0"
| "wordStart s (Suc k) = (if isLetter (s ! k) then wordStart s k else Suc k)"

definition getWordBefore :: "string \<Rightarrow> nat \<Rightarrow> string" where
  "getWordBefore s pos = slice s (wordStart s pos) pos"

text \<open>\<^verbatim>\<open>isSentenceBoundary\<close>, check by check in the order of the source.\<close>

definition isSentenceBoundary :: "string \<Rightarrow> nat \<Rightarrow> bool" where
  "isSentenceBoundary s pos =
    (case charAt s pos of
       None \<Rightarrow> False
     | Some char \<Rightarrow>
        if \<not> sentenceEnders char then False
        else if char = CHR ''.'' \<and> charAt s (pos + 1) = Some CHR ''.''
                \<and> charAt s (pos + 2) = Some CHR ''.'' then False
        else
          let afterPunc = slice s (pos + 1) (pos + 3) in
          if (case afterPunc of c # _ \<Rightarrow> isLower c | [] \<Rightarrow> False) then False
          else if char = CHR ''.'' \<and> (case afterPunc of c # _ \<Rightarrow> isDigit c | [] \<Rightarrow> False) then False
          else
            let wordBefore = getWordBefore s pos in
            if char = CHR ''.'' \<and> toLowerCase wordBefore \<in> set ABBREVIATIONS
                 \<and> \<not> matchSpaceUpper (sliceFrom s (pos + 1)) then False
            else if char = CHR ''.'' \<and> (case wordBefore of [c] \<Rightarrow> isUpper c | _ \<Rightarrow> False)
                 \<and> matchSpaceUpperDot (sliceFrom s (pos + 1)) then False
            else if (case charAt s (pos + 1) of Some q \<Rightarrow> isQuote q | None \<Rightarrow> False)
                 \<and> matchSpaceLower (slice s (pos + 2) (pos + 4)) then False
            else if matchSpaceUpperOrQuote afterPunc \<or> onlySpaces (sliceFrom s (pos + 1)) then True
            else if pos + 1 = length s then True
            else (case charAt s (pos + 1) of Some c \<Rightarrow> isSpace c | None \<Rightarrow> False))"

text \<open>\<^verbatim>\<open>detectSentenceBoundaries\<close>: the positions \<open>0 \<le> i < length\<close>, in order, that pass.\<close>

definition detectSentenceBoundaries :: "string \<Rightarrow> nat list" where
  "detectSentenceBoundaries s =
     filter (\<lambda>i. sentenceEnders (s ! i) \<and> isSentenceBoundary s i) [0..<length s]"

text \<open>
  \<^verbatim>\<open>splitIntoSentences\<close>. \<open>quoteEnd\<close> is the inner loop that moves \<open>end\<close> over closing
  quotes; \<open>splitStep\<close> is the body of the loop over the boundaries, on the pair of
  \<open>start\<close> and the sentences pushed so far.
\<close>

function quoteEnd :: "string \<Rightarrow> nat \<Rightarrow> nat" where
  "quoteEnd s e = (if e < length s \<and> isQuote (s ! e) then quoteEnd s (Suc e) else e)"
  by pat_completeness auto
termination
  by (relation "measure (\<lambda>(s, e). length s - e)") auto

declare quoteEnd.simps [simp del]

definition pushNonEmpty :: "string list \<Rightarrow> string \<Rightarrow> string list" where
  "pushNonEmpty sentences sentence = (if sentence \<noteq> [] then sentences @ [sentence] else sentences)"

definition splitStep :: "string \<Rightarrow> nat \<times> string list \<Rightarrow> nat \<Rightarrow> nat \<times> string list" where
  "splitStep normalized st boundary =
     (let e = quoteEnd normalized (boundary + 1)
      in (e, pushNonEmpty (snd st) (trim (slice normalized (fst st) e))))"

definition splitIntoSentences :: "string \<Rightarrow> string list" where
  "splitIntoSentences txt =
     (let normalized = collapseSpaces (trim txt);
          boundaries = detectSentenceBoundaries normalized
      in if boundaries = [] then [normalized]
         else
           let st = foldl (splitStep normalized) (0, []) boundaries
           in pushNonEmpty (snd st) (trim (sliceFrom normalized (fst st))))"

text \<open>
  \<^verbatim>\<open>TextChunk\<close> (\<^verbatim>\<open>streaming-types.ts\<close>). The optional context strings are
  \<open>None\<close> where the source stores \<open>undefined\<close>.
\<close>

record TextChunk =
  tc_text :: string
  tc_index :: nat
  tc_isFirst :: bool
  tc_isLast :: bool
  previousContext :: "string option"
  lookaheadContext :: "string option"

text \<open>
  \<^verbatim>\<open>createTextChunks\<close>. \<open>chunkSize\<close> and \<open>lookahead\<close> are counts of sentences. The
  loop adds \<open>chunkSize\<close> to \<open>i\<close> on every round and so never ends when \<open>chunkSize\<close>
  is 0 and there is a sentence: not returning is the value \<open>None\<close>.
\<close>

definition makeTextChunk :: "string list \<Rightarrow> nat \<Rightarrow> nat \<Rightarrow> nat \<Rightarrow> nat \<Rightarrow> TextChunk" where
  "makeTextChunk sentences chunkSize lookahead i n =
     (let chunkSentences = slice sentences i (i + chunkSize);
          chunkText = joinSpace chunkSentences;
          prevStart = i - lookahead;
          previousContext = (if 0 < i then Some (joinSpace (slice sentences prevStart i)) else None);
          lookaheadEnd = min (length sentences) (i + chunkSize + lookahead);
          lookaheadContext =
            (if i + chunkSize < length sentences
             then Some (joinSpace (slice sentences (i + chunkSize) lookaheadEnd)) else None)
      in \<lparr>tc_text = chunkText, tc_index = n, tc_isFirst = (i = 0),
          tc_isLast = (length sentences \<le> i + chunkSize),
          previousContext = previousContext, lookaheadContext = lookaheadContext\<rparr>)"

partial_function (option) createTextChunks_loop ::
  "string list \<Rightarrow> nat \<Rightarrow> nat \<Rightarrow> nat \<Rightarrow> TextChunk list \<Rightarrow> TextChunk list option" where
  "createTextChunks_loop sentences chunkSize lookahead i chunks =
     (if i < length sentences
      then createTextChunks_loop sentences chunkSize lookahead (i + chunkSize)
             (chunks @ [makeTextChunk sentences chunkSize lookahead i (length chunks)])
      else Some chunks)"

declare createTextChunks_loop.simps [code]

definition createTextChunks :: "string \<Rightarrow> nat \<Rightarrow> nat \<Rightarrow> TextChunk list option" where
  "createTextChunks txt chunkSize lookahead =
     createTextChunks_loop (splitIntoSentences txt) chunkSize lookahead 0 []"

section \<open>The audio buffer manager (\<^verbatim>\<open>buffer-manager.ts\<close>)\<close>

text \<open>
  Samples and times are JavaScript numbers. The model computes with them as real numbers:
  it is exact where the source rounds to the nearest float, and it has no \<open>NaN\<close> and
  no infinity. Lengths, indices and sample counts are integers as in the source.

  A \<^verbatim>\<open>Blob\<close> is the WAV file that \<^verbatim>\<open>pcm2wav(samples, channels, sampleRate)\<close> of
  \<^verbatim>\<open>audio.ts\<close> encodes; the model keeps the three arguments.
\<close>

datatype Blob = WavBlob "real list" nat real

datatype js_error = RangeError | Thrown string

definition errorMessage :: "js_error \<Rightarrow> string" where
  "errorMessage e = (case e of RangeError \<Rightarrow> ''offset is out of bounds'' | Thrown msg \<Rightarrow> msg)"

record ChunkMetrics =
  phonemizeTime :: real
  inferenceTime :: real
  totalTime :: real
  timeToFirstByte :: real

record AudioChunk =
  pcm :: "real list"
  blob :: Blob
  index :: nat
  startTime :: real
  duration :: real
  isFirst :: bool
  isLast :: bool
  ac_text :: string
  metrics :: ChunkMetrics

text \<open>\<^verbatim>\<open>BufferManagerOptions\<close>: every option may be left out (\<open>None\<close>).\<close>

record BufferManagerOptions =
  opt_sampleRate :: "real option"
  opt_crossfade :: "bool option"
  opt_crossfadeDuration :: "real option"
  opt_normalize :: "bool option"
  opt_targetPeak :: "real option"

record AudioBufferManager =
  chunks :: "AudioChunk list"
  sampleRate :: real
  crossfade :: bool
  crossfadeSamples :: int
  normalize_flag :: bool
  targetPeak :: real
  totalDuration :: real

text \<open>\<^verbatim>\<open>a ?? b\<close>.\<close>

definition orDefault :: "'a option \<Rightarrow> 'a \<Rightarrow> 'a" where
  "orDefault a b = (case a of Some v \<Rightarrow> v | None \<Rightarrow> b)"

text \<open>
  The constructor. Its body has no check and no \<^verbatim>\<open>throw\<close>: the result is always
  a manager (\<open>Inr\<close>), never an error (\<open>Inl\<close>).
\<close>

definition newAudioBufferManager :: "BufferManagerOptions \<Rightarrow> js_error + AudioBufferManager" where
  "newAudioBufferManager options =
     (let sr = orDefault (opt_sampleRate options) 22050
      in Inr \<lparr>chunks = [],
              sampleRate = sr,
              crossfade = orDefault (opt_crossfade options) True,
              crossfadeSamples = \<lfloor>orDefault (opt_crossfadeDuration options) 20 * sr / 1000\<rfloor>,
              normalize_flag = orDefault (opt_normalize options) True,
              targetPeak = orDefault (opt_targetPeak options) (95 / 100),
              totalDuration = 0\<rparr>)"

definition setSampleRate :: "real \<Rightarrow> AudioBufferManager \<Rightarrow> AudioBufferManager" where
  "setSampleRate r m = m\<lparr>sampleRate := r, crossfadeSamples := \<lfloor>20 * r / 1000\<rfloor>\<rparr>"

text \<open>\<^verbatim>\<open>findPeak\<close> and \<^verbatim>\<open>normalizeAudio\<close>.\<close>

definition findPeak :: "real list \<Rightarrow> real" where
  "findPeak samples = foldl (\<lambda>peak x. if \<bar>x\<bar> > peak then \<bar>x\<bar> else peak) 0 samples"

definition normalizeAudio :: "real \<Rightarrow> real list \<Rightarrow> real list" where
  "normalizeAudio target samples =
     (let peak = findPeak samples
      in if peak = 0 \<or> peak \<ge> target then samples
         else let gain = target / peak
              in map (\<lambda>x. max (- 1) (min 1 (x * gain))) samples)"

text \<open>
  \<^verbatim>\<open>applyCrossfadeIn\<close> and \<^verbatim>\<open>applyCrossfadeOut\<close>: a copy of the samples with the
  first, respectively last, \<open>fadeSamples\<close> of them scaled along the linear ramp.
\<close>

definition applyCrossfadeIn :: "int \<Rightarrow> real list \<Rightarrow> real list" where
  "applyCrossfadeIn cf samples =
     (let fadeSamples = min cf (int (length samples))
      in map (\<lambda>i. if int i < fadeSamples
                    then samples ! i * (real i / real_of_int fadeSamples)
                    else samples ! i) [0..<length samples])"

definition applyCrossfadeOut :: "int \<Rightarrow> real list \<Rightarrow> real list" where
  "applyCrossfadeOut cf samples =
     (let fadeSamples = min cf (int (length samples));
          startIdx = int (length samples) - fadeSamples
      in map (\<lambda>j. if startIdx \<le> int j \<and> int j - startIdx < fadeSamples
                    then samples ! j * (1 - real_of_int (int j - startIdx) / real_of_int fadeSamples)
                    else samples ! j) [0..<length samples])"

text \<open>
  \<^verbatim>\<open>addChunk\<close> returns the new chunk and leaves the manager changed: the model returns
  both. The previous chunk is faded out in place.
\<close>

definition fadeOutLast :: "AudioBufferManager \<Rightarrow> AudioChunk list" where
  "fadeOutLast m =
     (let prevChunk = last (chunks m);
          faded = applyCrossfadeOut (crossfadeSamples m) (pcm prevChunk)
      in butlast (chunks m) @ [prevChunk\<lparr>pcm := faded, blob := WavBlob faded 1 (sampleRate m)\<rparr>])"

definition addChunk ::
  "real list \<Rightarrow> string \<Rightarrow> ChunkMetrics \<Rightarrow> AudioBufferManager \<Rightarrow> AudioChunk \<times> AudioBufferManager" where
  "addChunk samples txt ms m =
     (let idx = length (chunks m);
          first = (idx = 0);
          normalized = (if normalize_flag m then normalizeAudio (targetPeak m) samples else samples);
          fading = (crossfade m \<and> \<not> first \<and> length (chunks m) > 0);
          processedPcm = (if fading then applyCrossfadeIn (crossfadeSamples m) normalized else normalized);
          previous = (if fading then fadeOutLast m else chunks m);
          d = real (length processedPcm) / sampleRate m;
          chunk = \<lparr>pcm = processedPcm, blob = WavBlob processedPcm 1 (sampleRate m), index = idx,
                   startTime = totalDuration m, duration = d, isFirst = first, isLast = False,
                   ac_text = txt, metrics = ms\<rparr>
      in (chunk, m\<lparr>chunks := previous @ [chunk], totalDuration := totalDuration m + d\<rparr>))"

text \<open>\<open>addChunks\<close>: one call of \<^verbatim>\<open>addChunk\<close> after the other, with the chunks returned.\<close>

fun addChunks ::
  "(real list \<times> string \<times> ChunkMetrics) list \<Rightarrow> AudioBufferManager
     \<Rightarrow> AudioChunk list \<times> AudioBufferManager" where
  "addChunks [] m = ([], m)"
| "addChunks (call # calls) m =
     (let added = addChunk (fst call) (fst (snd call)) (snd (snd call)) m;
          others = addChunks calls (snd added)
      in (fst added # fst others, snd others))"

definition finalize :: "AudioBufferManager \<Rightarrow> AudioBufferManager" where
  "finalize m =
     (if length (chunks m) > 0
      then m\<lparr>chunks := (chunks m)[length (chunks m) - 1 :=
                              (chunks m ! (length (chunks m) - 1))\<lparr>isLast := True\<rparr>]\<rparr>
      else m)"

definition getChunks :: "AudioBufferManager \<Rightarrow> AudioChunk list" where
  "getChunks m = chunks m"

definition getTotalDuration :: "AudioBufferManager \<Rightarrow> real" where
  "getTotalDuration m = totalDuration m"

definition clear :: "AudioBufferManager \<Rightarrow> AudioBufferManager" where
  "clear m = m\<lparr>chunks := [], totalDuration := 0\<rparr>"

text \<open>
  \<^verbatim>\<open>getConcatenatedBlob\<close>. The output buffer is a typed array of \<open>totalSamples\<close>
  zeros and \<open>offset\<close> is an integer that the crossfade branch may move backwards.
  \<^item> \<open>typedSet target source offset\<close> is \<^verbatim>\<open>target.set(source, offset)\<close>, which throws
    a \<^verbatim>\<open>RangeError\<close> when the offset is negative or the source does not fit.
  \<^item> \<open>typedSliceTo buffer e\<close> is \<^verbatim>\<open>buffer.slice(0, e)\<close>, where a negative \<open>e\<close> counts
    from the end.
  \<^item> \<open>blendOverlap\<close> is the inner loop over \<open>i < crossfadeSamples && i < chunk.pcm.length\<close>.
    A write to a typed array past its end is dropped, as \<open>list_update\<close> does.
\<close>

definition typedSet :: "real list \<Rightarrow> real list \<Rightarrow> int \<Rightarrow> js_error + real list" where
  "typedSet target source offset =
     (if offset < 0 \<or> int (length target) < offset + int (length source) then Inl RangeError
      else Inr (take (nat offset) target @ source @ drop (nat offset + length source) target))"

definition typedSliceTo :: "real list \<Rightarrow> int \<Rightarrow> real list" where
  "typedSliceTo buffer e =
     (if e < 0 then take (nat (max 0 (int (length buffer) + e))) buffer else take (nat e) buffer)"

definition blendSample :: "int \<Rightarrow> int \<Rightarrow> real list \<Rightarrow> real list \<Rightarrow> nat \<Rightarrow> real list" where
  "blendSample cf overlapStart samples concatenated i =
     (let fadeIn = real i / real_of_int cf;
          fadeOut = 1 - fadeIn
      in if overlapStart + int i \<ge> 0
         then concatenated[nat (overlapStart + int i) :=
                concatenated ! nat (overlapStart + int i) * fadeOut + samples ! i * fadeIn]
         else concatenated)"

definition blendOverlap :: "int \<Rightarrow> int \<Rightarrow> real list \<Rightarrow> real list \<Rightarrow> real list" where
  "blendOverlap cf overlapStart samples concatenated =
     foldl (blendSample cf overlapStart samples) concatenated
       [0..<nat (min cf (int (length samples)))]"

definition concatStep ::
  "bool \<Rightarrow> int \<Rightarrow> real list \<times> int \<Rightarrow> AudioChunk \<Rightarrow> js_error + real list \<times> int" where
  "concatStep cfOn cf st chunk =
     (let concatenated = fst st; offset = snd st
      in if cfOn \<and> offset > 0 \<and> cf > 0
         then
           (let overlapStart = offset - cf;
                blended = blendOverlap cf overlapStart (pcm chunk) concatenated
            in case typedSet blended (sliceFrom (pcm chunk) (nat cf)) offset of
                 Inl e \<Rightarrow> Inl e
               | Inr written \<Rightarrow> Inr (written, offset + (int (length (pcm chunk)) - cf)))
         else
           (case typedSet concatenated (pcm chunk) offset of
              Inl e \<Rightarrow> Inl e
            | Inr written \<Rightarrow> Inr (written, offset + int (length (pcm chunk)))))"

fun concatLoop ::
  "bool \<Rightarrow> int \<Rightarrow> real list \<times> int \<Rightarrow> AudioChunk list \<Rightarrow> js_error + real list \<times> int" where
  "concatLoop cfOn cf st [] = Inr st"
| "concatLoop cfOn cf st (chunk # rest) =
     (case concatStep cfOn cf st chunk of
        Inl e \<Rightarrow> Inl e
      | Inr st' \<Rightarrow> concatLoop cfOn cf st' rest)"

definition totalSamples :: "AudioChunk list \<Rightarrow> nat" where
  "totalSamples cs = foldl (\<lambda>sum chunk. sum + length (pcm chunk)) 0 cs"

definition getConcatenatedBlob :: "AudioBufferManager \<Rightarrow> js_error + Blob" where
  "getConcatenatedBlob m =
     (case concatLoop (crossfade m) (crossfadeSamples m)
             (replicate (totalSamples (chunks m)) 0, 0) (chunks m) of
        Inl e \<Rightarrow> Inl e
      | Inr st \<Rightarrow> Inr (WavBlob (typedSliceTo (fst st) (snd st)) 1 (sampleRate m)))"

section \<open>The streaming orchestrator (\<^verbatim>\<open>streaming.ts\<close>)\<close>

datatype SessionState = Initializing | Streaming | Completed | Error | Cancelled

record StreamMetrics =
  timeToFirstAudio :: real
  sm_totalTime :: real
  averageChunkLatency :: real
  totalChunks :: nat
  totalAudioDuration :: real
  realTimeFactor :: real
  chunkMetrics :: "ChunkMetrics list"

text \<open>A session; \<open>session_id n\<close> stands for the string \<^verbatim>\<open>stream-n\<close>.\<close>

record StreamingSession =
  session_id :: nat
  state :: SessionState
  session_metrics :: "StreamMetrics option"
  session_error :: "string option"

record StreamingConfig =
  cfg_text :: string
  voiceId :: string
  cfg_chunkSize :: "nat option"
  cfg_lookahead :: "nat option"
  maxLatency :: "real option"
  cfg_normalizeAudio :: "bool option"

text \<open>The two variables of the module: \<^verbatim>\<open>currentSession\<close> and \<^verbatim>\<open>sessionCounter\<close>.\<close>

record Globals =
  currentSession :: "StreamingSession option"
  sessionCounter :: nat

text \<open>
  What the run gets from outside.
  \<^item> \<open>loadModel\<close>: loading the modules, the configuration of the voice and the ONNX
    model; it gives the sample rate of the model or throws (\<open>Inl\<close> the message).
  \<^item> \<open>synthesize\<close>: \<^verbatim>\<open>phonemizeText\<close> then \<^verbatim>\<open>runInference\<close> on the text of one chunk;
    it gives the samples or throws.
  \<^item> \<open>measured\<close>: the four times read off \<^verbatim>\<open>performance.now()\<close> around the chunk with
    the given index; \<open>measuredTotal\<close>: the time from the start of the stream to its end.
  \<^item> \<open>cancelWhileSynthesizing\<close>: whether another task calls \<^verbatim>\<open>cancelStream()\<close> while
    the run awaits the synthesis of the given chunk. The awaits are the only places
    where another task can run.
\<close>

record Engine =
  loadModel :: "string \<Rightarrow> string + real"
  synthesize :: "string \<Rightarrow> string + real list"
  measured :: "nat \<Rightarrow> ChunkMetrics"
  measuredTotal :: real
  cancelWhileSynthesizing :: "TextChunk \<Rightarrow> bool"

text \<open>
  What the callback \<^verbatim>\<open>onChunk\<close> of the caller does with a chunk, as far as the run can
  tell: it returns, it calls \<^verbatim>\<open>cancelStream()\<close> and returns, or it throws.
\<close>

datatype CallbackEffect = Returns | CallsCancelStream | Throws string

definition cancelStream :: "Globals \<Rightarrow> Globals" where
  "cancelStream g =
     (case currentSession g of
        Some s \<Rightarrow> if state s = Streaming
                  then g\<lparr>currentSession := Some (s\<lparr>state := Cancelled\<rparr>)\<rparr> else g
      | None \<Rightarrow> g)"

definition getStreamingSession :: "Globals \<Rightarrow> StreamingSession option" where
  "getStreamingSession g = currentSession g"

definition setState :: "SessionState \<Rightarrow> Globals \<Rightarrow> Globals" where
  "setState st g = g\<lparr>currentSession := map_option (\<lambda>s. s\<lparr>state := st\<rparr>) (currentSession g)\<rparr>"

definition sessionState :: "Globals \<Rightarrow> SessionState option" where
  "sessionState g = map_option state (currentSession g)"

text \<open>
  The variables of the loop over the text chunks, with the chunks handed to \<^verbatim>\<open>onChunk\<close>
  so far, each as it was when handed over.
\<close>

record LoopState =
  globals :: Globals
  bufferManager :: AudioBufferManager
  chunkMetricsAcc :: "ChunkMetrics list"
  firstChunkTime :: "real option"
  delivered :: "AudioChunk list"

text \<open>
  \<^verbatim>\<open>audioChunk.isLast = textChunk.isLast\<close> writes to the object that the manager has just
  stored, so the stored chunk changes with the returned one.
\<close>

definition stampLast :: "bool \<Rightarrow> AudioBufferManager \<Rightarrow> AudioBufferManager" where
  "stampLast b m =
     m\<lparr>chunks := butlast (chunks m) @ [(last (chunks m))\<lparr>isLast := b\<rparr>]\<rparr>"

text \<open>
  The loop. An exception leaves it with the message and the state reached (\<open>Inl\<close>);
  \<^verbatim>\<open>break\<close> and the end of the chunks leave it normally (\<open>Inr\<close>).
\<close>

fun streamLoop ::
  "Engine \<Rightarrow> (AudioChunk \<Rightarrow> CallbackEffect) \<Rightarrow> LoopState \<Rightarrow> TextChunk list
     \<Rightarrow> string \<times> LoopState + LoopState" where
  "streamLoop env onChunk st [] = Inr st"
| "streamLoop env onChunk st (textChunk # rest) =
     (if sessionState (globals st) = Some Cancelled then Inr st
      else
        let st1 = (if cancelWhileSynthesizing env textChunk
                   then st\<lparr>globals := cancelStream (globals st)\<rparr> else st)
        in case synthesize env (tc_text textChunk) of
             Inl msg \<Rightarrow> Inl (msg, st1)
           | Inr samples \<Rightarrow>
               let ms = measured env (tc_index textChunk);
                   first = (case firstChunkTime st1 of
                              None \<Rightarrow> Some (timeToFirstByte ms) | Some t \<Rightarrow> Some t);
                   added = addChunk samples (tc_text textChunk) ms (bufferManager st1);
                   audioChunk = (fst added)\<lparr>isLast := tc_isLast textChunk\<rparr>;
                   st2 = st1\<lparr>bufferManager := stampLast (tc_isLast textChunk) (snd added),
                             chunkMetricsAcc := chunkMetricsAcc st1 @ [ms],
                             firstChunkTime := first,
                             delivered := delivered st1 @ [audioChunk]\<rparr>
               in case onChunk audioChunk of
                    Throws msg \<Rightarrow> Inl (msg, st2)
                  | CallsCancelStream \<Rightarrow>
                      streamLoop env onChunk (st2\<lparr>globals := cancelStream (globals st2)\<rparr>) rest
                  | Returns \<Rightarrow> streamLoop env onChunk st2 rest)"

text \<open>The \<^verbatim>\<open>catch\<close> block: the session records the error and the error is thrown again.\<close>

definition catchError :: "string \<Rightarrow> Globals \<Rightarrow> Globals" where
  "catchError msg g =
     g\<lparr>currentSession :=
          map_option (\<lambda>s. s\<lparr>state := Error, session_error := Some msg\<rparr>) (currentSession g)\<rparr>"

definition makeStreamMetrics :: "Engine \<Rightarrow> LoopState \<Rightarrow> AudioBufferManager \<Rightarrow> StreamMetrics" where
  "makeStreamMetrics env st m =
     (let total = measuredTotal env;
          totalAudio = getTotalDuration m
      in \<lparr>timeToFirstAudio = orDefault (firstChunkTime st) total,
          sm_totalTime = total,
          averageChunkLatency =
            foldl (\<lambda>sum x. sum + totalTime x) 0 (chunkMetricsAcc st) / real (length (chunkMetricsAcc st)),
          totalChunks = length (chunkMetricsAcc st),
          totalAudioDuration = totalAudio,
          realTimeFactor = totalAudio / (total / 1000),
          chunkMetrics = chunkMetricsAcc st\<rparr>)"

text \<open>
  \<^verbatim>\<open>predictStream\<close>. The result is \<open>None\<close> when the run never returns (the loop of
  \<open>createTextChunks\<close>); otherwise it is the metrics or the error thrown, with the
  variables of the module and the chunks delivered to \<^verbatim>\<open>onChunk\<close>.
\<close>

definition predictStream ::
  "Engine \<Rightarrow> StreamingConfig \<Rightarrow> (AudioChunk \<Rightarrow> CallbackEffect) \<Rightarrow> Globals
     \<Rightarrow> ((js_error + StreamMetrics) \<times> Globals \<times> AudioChunk list) option" where
  "predictStream env config onChunk g =
     (let n = sessionCounter g + 1;
          g0 = g\<lparr>sessionCounter := n,
                 currentSession := Some \<lparr>session_id = n, state = Initializing,
                                         session_metrics = None, session_error = None\<rparr>\<rparr>
      in case loadModel env (voiceId config) of
           Inl msg \<Rightarrow> Some (Inl (Thrown msg), catchError msg g0, [])
         | Inr rate \<Rightarrow>
             (case createTextChunks (cfg_text config) (orDefault (cfg_chunkSize config) 1)
                     (orDefault (cfg_lookahead config) 1) of
                None \<Rightarrow> None
              | Some textChunks \<Rightarrow>
                  (case newAudioBufferManager
                          \<lparr>opt_sampleRate = Some rate, opt_crossfade = Some True,
                           opt_crossfadeDuration = None,
                           opt_normalize = Some (orDefault (cfg_normalizeAudio config) True),
                           opt_targetPeak = None\<rparr> of
                     Inl e \<Rightarrow> Some (Inl e, catchError (errorMessage e) g0, [])
                   | Inr manager \<Rightarrow>
                       (case streamLoop env onChunk
                               \<lparr>globals = setState Streaming g0, bufferManager = manager,
                                chunkMetricsAcc = [], firstChunkTime = None, delivered = []\<rparr>
                               textChunks of
                          Inl (msg, st) \<Rightarrow>
                            Some (Inl (Thrown msg), catchError msg (globals st), delivered st)
                        | Inr st \<Rightarrow>
                            let m = finalize (bufferManager st);
                                g1 = setState Completed (globals st);
                                streamMetrics = makeStreamMetrics env st m;
                                g2 = g1\<lparr>currentSession :=
                                          map_option (\<lambda>s. s\<lparr>session_metrics := Some streamMetrics\<rparr>)
                                            (currentSession g1)\<rparr>
                            in Some (Inr streamMetrics, g2, delivered st)))))"

section \<open>Concrete inputs for the examples\<close>

text \<open>
  A manager at 1000 samples per second with crossfade on and normalization off, filled
  by \<open>addChunk\<close>; an engine that answers every chunk with the same two samples; a
  callback that calls \<^verbatim>\<open>cancelStream()\<close> when it is handed the first chunk.
\<close>

definition blobSamples :: "Blob \<Rightarrow> real list" where
  "blobSamples b = (case b of WavBlob samples _ _ \<Rightarrow> samples)"

definition exampleMetrics :: ChunkMetrics where
  "exampleMetrics = \<lparr>phonemizeTime = 1, inferenceTime = 2, totalTime = 3, timeToFirstByte = 4\<rparr>"

definition exampleOptions :: "real \<Rightarrow> BufferManagerOptions" where
  "exampleOptions d =
     \<lparr>opt_sampleRate = Some 1000, opt_crossfade = Some True, opt_crossfadeDuration = Some d,
      opt_normalize = Some False, opt_targetPeak = None\<rparr>"

definition exampleCalls :: "real list list \<Rightarrow> (real list \<times> string \<times> ChunkMetrics) list" where
  "exampleCalls sampleLists = map (\<lambda>samples. (samples, ''chunk'', exampleMetrics)) sampleLists"

definition exampleManager :: "real \<Rightarrow> real list list \<Rightarrow> AudioBufferManager" where
  "exampleManager d sampleLists =
     snd (addChunks (exampleCalls sampleLists) (projr (newAudioBufferManager (exampleOptions d))))"

definition exampleEngine :: Engine where
  "exampleEngine =
     \<lparr>loadModel = (\<lambda>v. Inr 1000), synthesize = (\<lambda>t. Inr [1 / 2, 1 / 4]),
      measured = (\<lambda>i. exampleMetrics), measuredTotal = 10,
      cancelWhileSynthesizing = (\<lambda>c. False)\<rparr>"

definition exampleConfig :: StreamingConfig where
  "exampleConfig =
     \<lparr>cfg_text = ''One. Two. Three.'', voiceId = ''en_US-amy-medium'', cfg_chunkSize = None,
      cfg_lookahead = None, maxLatency = None, cfg_normalizeAudio = None\<rparr>"

definition cancelAfterFirst :: "AudioChunk \<Rightarrow> CallbackEffect" where
  "cancelAfterFirst chunk = (if index chunk = 0 then CallsCancelStream else Returns)"

definition freshGlobals :: Globals where
  "freshGlobals = \<lparr>currentSession = None, sessionCounter = 0\<rparr>"

section \<open>Facts about the buffer manager\<close>

subsection \<open>Peak and normalization\<close>


lemma peak_fold_ge: "a \<le> foldl (\<lambda>peak x. if \<bar>x\<bar> > peak then \<bar>x\<bar> else peak) a (xs :: real list)"
proof (induction xs arbitrary: a)
  case Nil show ?case by simp
next
  case (Cons x xs)
  have "a \<le> (if \<bar>x\<bar> > a then \<bar>x\<bar> else a)" by simp
  also have "\<dots> \<le> foldl (\<lambda>peak x. if \<bar>x\<bar> > peak then \<bar>x\<bar> else peak) (if \<bar>x\<bar> > a then \<bar>x\<bar> else a) xs"
    by (rule Cons.IH)
  finally show ?case by simp
qed

lemma peak_fold_upper: "x \<in> set xs \<Longrightarrow> \<bar>x\<bar> \<le> foldl (\<lambda>peak x. if \<bar>x\<bar> > peak then \<bar>x\<bar> else peak) a (xs :: real list)"
proof (induction xs arbitrary: a)
  case Nil then show ?case by simp
next
  case (Cons y ys)
  show ?case
  proof (cases "x = y")
    case True
    have "\<bar>x\<bar> \<le> (if \<bar>y\<bar> > a then \<bar>y\<bar> else a)" using True by simp
    also have "\<dots> \<le> foldl (\<lambda>peak x. if \<bar>x\<bar> > peak then \<bar>x\<bar> else peak) (if \<bar>y\<bar> > a then \<bar>y\<bar> else a) ys"
      by (rule peak_fold_ge)
    finally show ?thesis by simp
  next
    case False
    with Cons.prems have "x \<in> set ys" by simp
    from Cons.IH[OF this] show ?thesis by simp
  qed
qed

lemma peak_fold_attained:
  "foldl (\<lambda>peak x. if \<bar>x\<bar> > peak then \<bar>x\<bar> else peak) a (xs :: real list) = a
   \<or> (\<exists>x\<in>set xs. \<bar>x\<bar> = foldl (\<lambda>peak x. if \<bar>x\<bar> > peak then \<bar>x\<bar> else peak) a xs)"
proof (induction xs arbitrary: a)
  case Nil show ?case by simp
next
  case (Cons y ys)
  from Cons.IH[of "if \<bar>y\<bar> > a then \<bar>y\<bar> else a"] show ?case
    by (auto split: if_splits)
qed

lemma findPeak_ge0: "0 \<le> findPeak xs"
  unfolding findPeak_def by (rule peak_fold_ge)

lemma findPeak_upper: "x \<in> set xs \<Longrightarrow> \<bar>x\<bar> \<le> findPeak xs"
  unfolding findPeak_def by (rule peak_fold_upper)

lemma findPeak_attained: "findPeak xs \<noteq> 0 \<Longrightarrow> \<exists>x\<in>set xs. \<bar>x\<bar> = findPeak xs"
  unfolding findPeak_def using peak_fold_attained[of 0 xs] by auto

lemma findPeak_eqI:
  assumes "\<And>x. x \<in> set xs \<Longrightarrow> \<bar>x\<bar> \<le> b" and "\<exists>x\<in>set xs. \<bar>x\<bar> = b"
  shows "findPeak xs = b"
proof (rule antisym)
  from assms(2) obtain x where x: "x \<in> set xs" "\<bar>x\<bar> = b" by blast
  from findPeak_upper[OF x(1)] x(2) show "b \<le> findPeak xs" by simp
  show "findPeak xs \<le> b"
  proof (cases "findPeak xs = 0")
    case True with x(2) show ?thesis by (metis abs_ge_zero)
  next
    case False
    from findPeak_attained[OF this] obtain y where "y \<in> set xs" "\<bar>y\<bar> = findPeak xs" by blast
    with assms(1) show ?thesis by metis
  qed
qed

lemma clamp_abs:
  fixes x g :: real
  assumes "0 \<le> g"
  shows "\<bar>max (- 1) (min 1 (x * g))\<bar> = min 1 (\<bar>x\<bar> * g)"
proof (cases "0 \<le> x")
  case True
  then have "0 \<le> x * g" using assms by simp
  then show ?thesis using True by (simp add: min_def max_def)
next
  case False
  then have xg: "x * g \<le> 0" using assms by (simp add: mult_le_0_iff)
  have ax: "\<bar>x\<bar> * g = - (x * g)" using False by simp
  show ?thesis unfolding ax using xg by (simp add: min_def max_def)
qed

lemma normalizeAudio_scaled_peak:
  assumes "0 < findPeak xs" "findPeak xs < target"
  shows "findPeak (normalizeAudio target xs) = min target 1"
proof -
  let ?p = "findPeak xs"
  let ?g = "target / ?p"
  have g: "0 \<le> ?g" using assms by simp
  have norm: "normalizeAudio target xs = map (\<lambda>x. max (- 1) (min 1 (x * ?g))) xs"
    using assms by (simp add: normalizeAudio_def Let_def)
  have pg: "?p * ?g = target" using assms by simp
  show ?thesis unfolding norm
  proof (rule findPeak_eqI)
    fix y assume "y \<in> set (map (\<lambda>x. max (- 1) (min 1 (x * ?g))) xs)"
    then obtain x where x: "x \<in> set xs" and y: "y = max (- 1) (min 1 (x * ?g))" by auto
    have "\<bar>x\<bar> * ?g \<le> ?p * ?g" using findPeak_upper[OF x] g by (rule mult_right_mono)
    then have "\<bar>x\<bar> * ?g \<le> target" using pg by simp
    then show "\<bar>y\<bar> \<le> min target 1" unfolding y clamp_abs[OF g] by simp
  next
    from findPeak_attained[of xs] assms obtain x where x: "x \<in> set xs" "\<bar>x\<bar> = ?p" by auto
    have "\<bar>max (- 1) (min 1 (x * ?g))\<bar> = min target 1"
      unfolding clamp_abs[OF g] x(2) pg by (simp add: min.commute)
    with x(1) show "\<exists>y\<in>set (map (\<lambda>x. max (- 1) (min 1 (x * ?g))) xs). \<bar>y\<bar> = min target 1"
      by auto
  qed
qed

lemma normalizeAudio_unchanged:
  "findPeak xs = 0 \<or> target \<le> findPeak xs \<Longrightarrow> normalizeAudio target xs = xs"
  by (auto simp: normalizeAudio_def Let_def)


subsection \<open>Duration accounting\<close>

lemma addChunk_total:
  "totalDuration (snd (addChunk xs t ms m)) = totalDuration m + duration (fst (addChunk xs t ms m))"
  by (simp add: addChunk_def Let_def)

lemma addChunk_start: "startTime (fst (addChunk xs t ms m)) = totalDuration m"
  by (simp add: addChunk_def Let_def)

lemma addChunks_total:
  "totalDuration (snd (addChunks calls m))
     = totalDuration m + sum_list (map duration (fst (addChunks calls m)))"
proof (induction calls arbitrary: m)
  case Nil
  show ?case by simp
next
  case (Cons c cs)
  show ?case by (simp add: Let_def Cons.IH addChunk_total)
qed

lemma addChunks_length: "length (fst (addChunks calls m)) = length calls"
  by (induction calls arbitrary: m) (simp_all add: Let_def)

lemma addChunks_start:
  "i < length calls \<Longrightarrow>
   startTime (fst (addChunks calls m) ! i) = totalDuration (snd (addChunks (take i calls) m))"
proof (induction calls arbitrary: m i)
  case Nil
  then show ?case by simp
next
  case (Cons c cs)
  show ?case
  proof (cases i)
    case 0
    then show ?thesis by (simp add: Let_def addChunk_start)
  next
    case (Suc j)
    with Cons.prems have "j < length cs" by simp
    from Cons.IH[OF this] show ?thesis using Suc by (simp add: Let_def)
  qed
qed

subsection \<open>Concatenation\<close>


lemma length_blendSample: "length (blendSample cf os samples buf i) = length buf"
  by (simp add: blendSample_def Let_def)

lemma length_foldl_blendSample: "length (foldl (blendSample cf os samples) buf is) = length buf"
  by (induction "is" arbitrary: buf) (simp_all add: length_blendSample)

lemma length_blendOverlap: "length (blendOverlap cf os samples buf) = length buf"
  by (simp add: blendOverlap_def length_foldl_blendSample)

lemma blendSample_nth_other: "int j \<noteq> os + int i \<Longrightarrow> blendSample cf os samples buf i ! j = buf ! j"
  by (auto simp add: blendSample_def Let_def)

lemma foldl_blendSample_nth_other:
  "\<forall>i\<in>set is. int j \<noteq> os + int i \<Longrightarrow> foldl (blendSample cf os samples) buf is ! j = buf ! j"
  by (induction "is" arbitrary: buf) (simp_all add: blendSample_nth_other)

lemma blendOverlap_nth_outside:
  assumes "\<not> (os \<le> int j \<and> int j < os + min cf (int (length samples)))"
  shows "blendOverlap cf os samples buf ! j = buf ! j"
  unfolding blendOverlap_def
proof (rule foldl_blendSample_nth_other, rule ballI)
  fix i assume "i \<in> set [0..<nat (min cf (int (length samples)))]"
  then have "int i < min cf (int (length samples))" by auto
  with assms show "int j \<noteq> os + int i" by linarith
qed

lemma totalSamples_foldl: "foldl (\<lambda>sum chunk. sum + length (pcm chunk)) a cs = a + (\<Sum>c\<leftarrow>cs. length (pcm c))"
  by (induction cs arbitrary: a) simp_all

lemma totalSamples_sum: "totalSamples cs = (\<Sum>c\<leftarrow>cs. length (pcm c))"
  by (simp add: totalSamples_def totalSamples_foldl)

lemma int_sum_lengths: "int (\<Sum>c\<leftarrow>cs. length (pcm c)) = (\<Sum>c\<leftarrow>cs. int (length (pcm c)))"
  by (induction cs) simp_all

lemma length_typedSet: "typedSet target source offset = Inr written \<Longrightarrow> length written = length target"
  by (auto simp: typedSet_def split: if_splits)

lemma typedSet_fits: "0 \<le> offset \<Longrightarrow> offset + int (length source) \<le> int (length target) \<Longrightarrow>
  \<exists>written. typedSet target source offset = Inr written \<and> length written = length target"
  by (auto simp: typedSet_def)

lemma typedSet_nth: "typedSet target source offset = Inr written \<Longrightarrow> i < length source \<Longrightarrow>
   written ! (nat offset + i) = source ! i"
  by (auto simp: typedSet_def nth_append split: if_splits)

lemma concatStep_fade:
  assumes "0 < offset" "0 < cf" "cf \<le> int (length (pcm chunk))"
      "offset + int (length (pcm chunk)) \<le> int (length buf)"
  shows "\<exists>buf'. concatStep True cf (buf, offset) chunk = Inr (buf', offset + int (length (pcm chunk)) - cf)
          \<and> length buf' = length buf"
proof -
  let ?bl = "blendOverlap cf (offset - cf) (pcm chunk) buf"
  have "\<exists>w. typedSet ?bl (sliceFrom (pcm chunk) (nat cf)) offset = Inr w \<and> length w = length ?bl"
    using assms by (intro typedSet_fits) (auto simp: sliceFrom_def length_blendOverlap)
  then obtain w where "typedSet ?bl (sliceFrom (pcm chunk) (nat cf)) offset = Inr w" "length w = length buf"
    by (auto simp: length_blendOverlap)
  then show ?thesis using assms by (simp add: concatStep_def Let_def)
qed

lemma concatStep_plain:
  assumes "\<not> (0 < offset \<and> 0 < cf)" "0 \<le> offset"
      "offset + int (length (pcm chunk)) \<le> int (length buf)"
  shows "\<exists>buf'. concatStep cfOn cf (buf, offset) chunk = Inr (buf', offset + int (length (pcm chunk)))
          \<and> length buf' = length buf"
proof -
  obtain w where "typedSet buf (pcm chunk) offset = Inr w" "length w = length buf"
    using typedSet_fits[OF assms(2,3)] by blast
  then show ?thesis using assms by (auto simp add: concatStep_def Let_def)
qed

lemma concatLoop_crossfaded:
  assumes "0 \<le> cf" "0 < offset" "\<forall>c\<in>set cs. cf \<le> int (length (pcm c))"
      "offset + (\<Sum>c\<leftarrow>cs. int (length (pcm c))) \<le> int (length buf)"
  shows "\<exists>buf'. concatLoop True cf (buf, offset) cs
            = Inr (buf', offset + (\<Sum>c\<leftarrow>cs. int (length (pcm c))) - int (length cs) * cf)
          \<and> length buf' = length buf"
  using assms
proof (induction cs arbitrary: buf offset)
  case Nil
  then show ?case by simp
next
  case (Cons c cs)
  let ?n = "int (length (pcm c))"
  have cn: "cf \<le> ?n" using Cons.prems(3) by simp
  have rest0: "0 \<le> (\<Sum>c\<leftarrow>cs. int (length (pcm c)))" by (rule sum_list_nonneg) auto
  have fit: "offset + ?n \<le> int (length buf)" using Cons.prems(4) rest0 by simp
  show ?case
  proof (cases "0 < cf")
    case True
    from concatStep_fade[OF Cons.prems(2) True cn fit]
    obtain b1 where b1: "concatStep True cf (buf, offset) c = Inr (b1, offset + ?n - cf)"
      "length b1 = length buf" by blast
    have "\<exists>buf'. concatLoop True cf (b1, offset + ?n - cf) cs
            = Inr (buf', (offset + ?n - cf) + (\<Sum>c\<leftarrow>cs. int (length (pcm c))) - int (length cs) * cf)
          \<and> length buf' = length b1"
      using Cons.prems cn True b1(2) by (intro Cons.IH) auto
    then show ?thesis using b1 by (auto simp: algebra_simps)
  next
    case False
    with Cons.prems(1) have cf0: "cf = 0" by simp
    from concatStep_plain[of offset cf c buf True] False Cons.prems(2) fit
    obtain b1 where b1: "concatStep True cf (buf, offset) c = Inr (b1, offset + ?n)"
      "length b1 = length buf" by auto
    have "\<exists>buf'. concatLoop True cf (b1, offset + ?n) cs
            = Inr (buf', (offset + ?n) + (\<Sum>c\<leftarrow>cs. int (length (pcm c))) - int (length cs) * cf)
          \<and> length buf' = length b1"
      using Cons.prems b1(2) by (intro Cons.IH) auto
    then show ?thesis using b1 cf0 by (auto simp: algebra_simps)
  qed
qed


text \<open>
  What one round of the crossfade branch writes: the samples of the incoming chunk from
  the crossfade sample count on are copied as they are to the positions from \<open>offset\<close>
  on, and every other position outside the blend window, which is \<open>overlapStart + i\<close>
  for \<open>i\<close> below both the crossfade sample count and the length of the incoming chunk,
  keeps its value.
\<close>

lemma concatStep_crossfade_writes:
  assumes step: "concatStep True cf (buffer, offset) chunk = Inr (written, offset')"
    and "0 < offset" and "0 < cf"
  shows "offset' = offset + (int (length (pcm chunk)) - cf)"
    and "length written = length buffer"
    and "offset \<le> int j \<Longrightarrow> int j < offset + (int (length (pcm chunk)) - cf)
           \<Longrightarrow> written ! j = pcm chunk ! (nat (int j - offset + cf))"
    and "j < length buffer \<Longrightarrow>
         \<not> (offset - cf \<le> int j \<and> int j < offset - cf + min cf (int (length (pcm chunk)))) \<Longrightarrow>
         \<not> (offset \<le> int j \<and> int j < offset + (int (length (pcm chunk)) - cf)) \<Longrightarrow>
         written ! j = buffer ! j"
proof -
  let ?bl = "blendOverlap cf (offset - cf) (pcm chunk) buffer"
  let ?src = "sliceFrom (pcm chunk) (nat cf)"
  from assms have w: "typedSet ?bl ?src offset = Inr written"
    and o: "offset' = offset + (int (length (pcm chunk)) - cf)"
    by (auto simp: concatStep_def Let_def split: sum.splits)
  show "offset' = offset + (int (length (pcm chunk)) - cf)" by (rule o)
  from length_typedSet[OF w] show len: "length written = length buffer"
    by (simp add: length_blendOverlap)
  have srclen: "int (length ?src) = max 0 (int (length (pcm chunk)) - cf)"
    using assms(3) by (simp add: sliceFrom_def)
  from w have fits: "0 \<le> offset" "offset + int (length ?src) \<le> int (length ?bl)"
    and wr: "written = take (nat offset) ?bl @ ?src @ drop (nat offset + length ?src) ?bl"
    by (auto simp: typedSet_def split: if_splits)
  {
    assume a: "offset \<le> int j" "int j < offset + (int (length (pcm chunk)) - cf)"
    then have k: "j - nat offset < length ?src" using srclen assms(2) by linarith
    have "j = nat offset + (j - nat offset)" using a(1) assms(2) by linarith
    with typedSet_nth[OF w k] have "written ! j = ?src ! (j - nat offset)" by simp
    also have "\<dots> = pcm chunk ! (nat cf + (j - nat offset))"
      using k by (simp add: sliceFrom_def)
    also have "nat cf + (j - nat offset) = nat (int j - offset + cf)"
      using a(1) assms(2,3) by linarith
    finally show "written ! j = pcm chunk ! (nat (int j - offset + cf))" .
  }
  {
    assume j: "j < length buffer"
      and nb: "\<not> (offset - cf \<le> int j \<and> int j < offset - cf + min cf (int (length (pcm chunk))))"
      and nc: "\<not> (offset \<le> int j \<and> int j < offset + (int (length (pcm chunk)) - cf))"
    have bl: "?bl ! j = buffer ! j" using nb by (rule blendOverlap_nth_outside)
    have lb: "length ?bl = length buffer" by (rule length_blendOverlap)
    show "written ! j = buffer ! j"
    proof (cases "int j < offset")
      case True
      then have "j < nat offset" by linarith
      moreover have "nat offset \<le> length ?bl" using fits by linarith
      ultimately have "written ! j = ?bl ! j" unfolding wr by (simp add: nth_append)
      with bl show ?thesis by simp
    next
      case False
      have ge: "nat offset + length ?src \<le> j"
      proof (cases "int (length (pcm chunk)) - cf \<le> 0")
        case True
        with srclen have "length ?src = 0" by simp
        then show ?thesis using False by simp
      next
        case nonempty: False
        with srclen have sl: "int (length ?src) = int (length (pcm chunk)) - cf" by simp
        have "offset \<le> int j" using False by simp
        with nc have "offset + (int (length (pcm chunk)) - cf) \<le> int j" by simp
        moreover have "int (nat offset + length ?src) = offset + (int (length (pcm chunk)) - cf)"
          using fits(1) sl by simp
        ultimately have "int (nat offset + length ?src) \<le> int j" by simp
        then show ?thesis by (simp only: of_nat_le_iff)
      qed
      have l1: "length (take (nat offset) ?bl) = nat offset" using fits by simp
      let ?d = "drop (nat offset + length ?src) ?bl"
      have n1: "\<not> j < length (take (nat offset) ?bl)" using ge l1 by linarith
      have n2: "\<not> j - nat offset < length ?src" using ge by linarith
      have "written ! j = (?src @ ?d) ! (j - nat offset)"
        unfolding wr using n1 l1 by (simp only: nth_append if_False)
      also have "\<dots> = ?d ! (j - nat offset - length ?src)"
        using n2 by (simp only: nth_append if_False)
      also have "\<dots> = ?bl ! (nat offset + length ?src + (j - nat offset - length ?src))"
        using fits by (intro nth_drop) linarith
      also have "nat offset + length ?src + (j - nat offset - length ?src) = j"
        using ge by linarith
      finally show ?thesis using bl by simp
    qed
  }
qed

lemma sum_lengths_ge:
  "\<forall>c\<in>set cs. cf \<le> int (length (pcm c)) \<Longrightarrow> int (length cs) * cf \<le> (\<Sum>c\<leftarrow>cs. int (length (pcm c)))"
  by (induction cs) (auto simp: algebra_simps)

text \<open>
  Where the first chunk is not empty and every later chunk is at least as long as the
  crossfade, the offset never moves backwards and the length of the output is the sum of
  the chunk lengths minus (number of chunks - 1) times the crossfade sample count.
\<close>

lemma getConcatenatedBlob_crossfaded:
  assumes "crossfade m" "chunks m = first # rest" "0 \<le> crossfadeSamples m" "pcm first \<noteq> []"
      "\<forall>c\<in>set rest. crossfadeSamples m \<le> int (length (pcm c))"
  shows "\<exists>out. getConcatenatedBlob m = Inr (WavBlob out 1 (sampleRate m)) \<and>
     int (length out) = (\<Sum>c\<leftarrow>chunks m. int (length (pcm c)))
                          - (int (length (chunks m)) - 1) * crossfadeSamples m"
proof -
  let ?cf = "crossfadeSamples m"
  let ?buf = "replicate (totalSamples (chunks m)) (0::real)"
  let ?n = "int (length (pcm first))"
  let ?r = "(\<Sum>c\<leftarrow>rest. int (length (pcm c)))"
  have tot: "int (totalSamples (chunks m)) = ?n + ?r"
    by (simp add: totalSamples_sum assms(2) int_sum_lengths)
  have rest0: "0 \<le> ?r" by (rule sum_list_nonneg) auto
  have n0: "0 < ?n" using assms(4) by simp
  from concatStep_plain[of 0 ?cf first ?buf True] tot rest0
  obtain b1 where b1: "concatStep True ?cf (?buf, 0) first = Inr (b1, ?n)" "length b1 = length ?buf"
    by auto
  have "\<exists>buf'. concatLoop True ?cf (b1, ?n) rest = Inr (buf', ?n + ?r - int (length rest) * ?cf)
          \<and> length buf' = length b1"
    using assms(3) n0 assms(5) b1(2) tot by (intro concatLoop_crossfaded) auto
  then obtain b2 where b2: "concatLoop True ?cf (b1, ?n) rest = Inr (b2, ?n + ?r - int (length rest) * ?cf)"
      "length b2 = length b1" by blast
  let ?off = "?n + ?r - int (length rest) * ?cf"
  have "int (length rest) * ?cf \<le> ?r" using assms(5) by (rule sum_lengths_ge)
  then have offpos: "0 < ?off" using n0 by linarith
  have "0 \<le> int (length rest) * ?cf" using assms(3) by simp
  moreover have "int (length b2) = ?n + ?r" using b2(2) b1(2) tot by simp
  ultimately have offle: "?off \<le> int (length b2)" by linarith
  have loop: "concatLoop (crossfade m) ?cf (?buf, 0) (chunks m) = Inr (b2, ?off)"
    using assms(1,2) b1 b2 by simp
  have "length (typedSliceTo b2 ?off) = nat ?off" using offpos offle by (simp add: typedSliceTo_def)
  then have "int (length (typedSliceTo b2 ?off)) = ?off" using offpos by simp
  then show ?thesis using loop assms(2) by (simp add: getConcatenatedBlob_def algebra_simps)
qed

subsection \<open>Finalize\<close>

lemma finalize_empty: "chunks m = [] \<Longrightarrow> finalize m = m"
  by (simp add: finalize_def)

lemma finalize_length: "length (chunks (finalize m)) = length (chunks m)"
  by (simp add: finalize_def)

lemma finalize_nth:
  "i < length (chunks m) \<Longrightarrow>
   chunks (finalize m) ! i
     = (if i = length (chunks m) - 1 then (chunks m ! i)\<lparr>isLast := True\<rparr> else chunks m ! i)"
  by (auto simp add: finalize_def)

lemma finalize_only_chunks: "finalize m = m\<lparr>chunks := chunks (finalize m)\<rparr>"
  by (simp add: finalize_def)

lemma finalize_idem: "finalize (finalize m) = finalize m"
  by (simp add: finalize_def)

section \<open>The segmenter on the documented examples\<close>

text \<open>
  Claim C2. For the input \<^verbatim>\<open>Wait... really?\<close> the expected result is one boundary, at the
  question mark, and no period of the ellipsis is a boundary.

  The code returns two boundaries, 6 and 14. The ellipsis check of \<open>isSentenceBoundary\<close>
  looks at the two characters after the position only, so it rejects the first period
  (position 4). The second period (position 5) is rejected because a period follows it.
  The third period (position 6) is followed by a space and passes the last test of the
  function, so it is classified as a sentence boundary.
\<close>

theorem detectSentenceBoundaries_ellipsis:
  "detectSentenceBoundaries ''Wait... really?'' = [6, 14]
   \<and> ''Wait... really?'' ! 6 = CHR ''.'' \<and> ''Wait... really?'' ! 14 = CHR ''?''"
  by code_simp

text \<open>
  Claim C3. For the input
  \<^verbatim>\<open>Dr. Smith arrived at 3:30 p.m. The meeting was productive.\<close> the expected result is two
  sentences, the first ending at \<^verbatim>\<open>p.m.\<close>, with no split after \<^verbatim>\<open>Dr.\<close>

  The code returns three sentences. The word before the first period is the abbreviation
  \<^verbatim>\<open>dr\<close>, but whitespace and the upper-case letter S follow, which is the case in which
  the abbreviation check lets the position through; the test for whitespace followed by
  an upper-case letter then accepts it. There is no split inside \<^verbatim>\<open>3:30\<close> and none inside
  \<^verbatim>\<open>p.m.\<close>
\<close>

theorem splitIntoSentences_abbreviation:
  "splitIntoSentences ''Dr. Smith arrived at 3:30 p.m. The meeting was productive.''
     = [''Dr.'', ''Smith arrived at 3:30 p.m.'', ''The meeting was productive.'']"
  by code_simp

text \<open>
  Claim C8. For every text that splits into exactly three sentences, \<open>createTextChunks\<close>
  with \<open>chunkSize = 1\<close> and \<open>lookahead = 1\<close> returns, and returns exactly three chunks:
  the indices are 0, 1, 2; the first chunk alone is marked first and the third alone is
  marked last; the first chunk has no previous context and the third no lookahead
  context; the previous context of the second chunk is the first sentence and its
  lookahead context is the third sentence.
\<close>

theorem createTextChunks_three_sentences:
  assumes "splitIntoSentences txt = [s1, s2, s3]"
  shows "createTextChunks txt 1 1 = Some
     [\<lparr>tc_text = s1, tc_index = 0, tc_isFirst = True, tc_isLast = False,
       previousContext = None, lookaheadContext = Some s2\<rparr>,
      \<lparr>tc_text = s2, tc_index = 1, tc_isFirst = False, tc_isLast = False,
       previousContext = Some s1, lookaheadContext = Some s3\<rparr>,
      \<lparr>tc_text = s3, tc_index = 2, tc_isFirst = False, tc_isLast = True,
       previousContext = Some s2, lookaheadContext = None\<rparr>]"
  using assms
  by (simp add: createTextChunks_def createTextChunks_loop.simps makeTextChunk_def slice_def)

text \<open>Claim C8, at the text \<^verbatim>\<open>One. Two. Three.\<close>, which splits into three sentences.\<close>

theorem createTextChunks_three_sentences_witness:
  "splitIntoSentences ''One. Two. Three.'' = [''One.'', ''Two.'', ''Three.'']
   \<and> createTextChunks ''One. Two. Three.'' 1 1 = Some
     [\<lparr>tc_text = ''One.'', tc_index = 0, tc_isFirst = True, tc_isLast = False,
       previousContext = None, lookaheadContext = Some ''Two.''\<rparr>,
      \<lparr>tc_text = ''Two.'', tc_index = 1, tc_isFirst = False, tc_isLast = False,
       previousContext = Some ''One.'', lookaheadContext = Some ''Three.''\<rparr>,
      \<lparr>tc_text = ''Three.'', tc_index = 2, tc_isFirst = False, tc_isLast = True,
       previousContext = Some ''Two.'', lookaheadContext = None\<rparr>]"
proof -
  have h: "splitIntoSentences ''One. Two. Three.'' = [''One.'', ''Two.'', ''Three.'']"
    by code_simp
  show ?thesis using h createTextChunks_three_sentences [OF h] by simp
qed

section \<open>The buffer manager\<close>

text \<open>
  Claim C9 as stated fails: a manager constructed with a negative sample rate, or with a
  negative crossfade duration, is returned like any other. The sample rate is stored as
  given; the crossfade sample count stored is -441 for each of the two inputs below.
\<close>

theorem newAudioBufferManager_accepts_negative:
  "newAudioBufferManager \<lparr>opt_sampleRate = Some (- 22050), opt_crossfade = None,
       opt_crossfadeDuration = None, opt_normalize = None, opt_targetPeak = None\<rparr>
     = Inr \<lparr>chunks = [], sampleRate = - 22050, crossfade = True, crossfadeSamples = - 441,
            normalize_flag = True, targetPeak = 95 / 100, totalDuration = 0\<rparr>
   \<and> newAudioBufferManager \<lparr>opt_sampleRate = Some 22050, opt_crossfade = None,
       opt_crossfadeDuration = Some (- 20), opt_normalize = None, opt_targetPeak = None\<rparr>
     = Inr \<lparr>chunks = [], sampleRate = 22050, crossfade = True, crossfadeSamples = - 441,
            normalize_flag = True, targetPeak = 95 / 100, totalDuration = 0\<rparr>"
  by (simp add: newAudioBufferManager_def orDefault_def)

text \<open>
  Claim C9, amended. The constructor never fails: for every configuration, a negative
  sample rate or crossfade duration included, it returns a manager with no chunks and a
  running duration of zero, whose sample rate is the one given (22050 by default), whose
  crossfade sample count is the floor of duration times rate over 1000 (duration 20 by
  default), and whose crossfade flag, normalization flag and target peak are the ones
  given (on, on and 0.95 by default).
\<close>

theorem newAudioBufferManager_total:
  "\<exists>m. newAudioBufferManager options = Inr m \<and> chunks m = [] \<and> totalDuration m = 0
     \<and> sampleRate m = orDefault (opt_sampleRate options) 22050
     \<and> crossfadeSamples m
         = \<lfloor>orDefault (opt_crossfadeDuration options) 20 * sampleRate m / 1000\<rfloor>
     \<and> crossfade m = orDefault (opt_crossfade options) True
     \<and> normalize_flag m = orDefault (opt_normalize options) True
     \<and> targetPeak m = orDefault (opt_targetPeak options) (95 / 100)"
  by (simp add: newAudioBufferManager_def Let_def)

text \<open>
  Claim C10. For every state of the manager, \<open>setSampleRate r\<close> leaves the crossfade
  sample count at the floor of \<open>20 * r / 1000\<close> and the sample rate at \<open>r\<close>. In
  particular this holds for a manager constructed with any options and after any calls
  of \<open>addChunk\<close> since: a crossfade duration given at construction is discarded.
\<close>

theorem setSampleRate_crossfadeSamples:
  "crossfadeSamples (setSampleRate r m) = \<lfloor>20 * r / 1000\<rfloor>
   \<and> sampleRate (setSampleRate r m) = r
   \<and> (\<exists>m0. newAudioBufferManager options = Inr m0
         \<and> crossfadeSamples (setSampleRate r (snd (addChunks calls m0))) = \<lfloor>20 * r / 1000\<rfloor>)"
  by (simp add: newAudioBufferManager_def setSampleRate_def Let_def)

text \<open>
  Claim C5. For every sequence of calls of \<open>addChunk\<close> on a newly constructed manager,
  under every setting of the options (crossfade on or off), the total duration afterwards
  is the sum of the durations of the chunks returned, there is one chunk returned for
  each call, and the start time of each returned chunk is the total duration before its
  call.
\<close>

theorem addChunk_duration_accounting:
  assumes "newAudioBufferManager options = Inr m"
  shows "getTotalDuration (snd (addChunks calls m)) = sum_list (map duration (fst (addChunks calls m)))
     \<and> length (fst (addChunks calls m)) = length calls
     \<and> (\<forall>i<length calls.
          startTime (fst (addChunks calls m) ! i) = getTotalDuration (snd (addChunks (take i calls) m)))"
proof -
  from assms have "totalDuration m = 0" by (auto simp: newAudioBufferManager_def Let_def)
  then show ?thesis
    using addChunks_total[of calls m] addChunks_length[of calls m] addChunks_start[of _ calls m]
    by (simp add: getTotalDuration_def)
qed

text \<open>Claim C5, at two chunks of two and three samples at 1000 samples per second.\<close>

theorem addChunk_duration_accounting_witness:
  "newAudioBufferManager (exampleOptions 2) = Inr (projr (newAudioBufferManager (exampleOptions 2)))
   \<and> getTotalDuration (exampleManager 2 [[1, 1], [1, 1, 1]])
       = sum_list (map duration (fst (addChunks (exampleCalls [[1, 1], [1, 1, 1]])
                     (projr (newAudioBufferManager (exampleOptions 2))))))
   \<and> getTotalDuration (exampleManager 2 [[1, 1], [1, 1, 1]]) = 5 / 1000"
proof -
  let ?m = "projr (newAudioBufferManager (exampleOptions 2))"
  have h: "newAudioBufferManager (exampleOptions 2) = Inr ?m"
    by (simp add: newAudioBufferManager_def Let_def)
  have v: "getTotalDuration (exampleManager 2 [[1, 1], [1, 1, 1]]) = 5 / 1000"
    by code_simp
  show ?thesis
    using h v addChunk_duration_accounting [OF h, of "exampleCalls [[1, 1], [1, 1, 1]]"]
    by (simp add: exampleManager_def)
qed

text \<open>
  Claim C6 as stated fails when the target peak is above 1: the scaled samples are
  clamped to the range from -1 to 1. One sample of 0.5 with a target peak of 2 is scaled
  to 2 and clamped to 1, so the peak of the output is 1.
\<close>

theorem normalizeAudio_clamped_counterexample:
  "findPeak [1 / 2] \<noteq> 0 \<and> findPeak [1 / 2] < 2 \<and> findPeak (normalizeAudio 2 [1 / 2]) \<noteq> 2"
  by (simp add: findPeak_def normalizeAudio_def)

text \<open>
  Claim C6, amended. In exact arithmetic: for every sample array whose peak is nonzero
  and below the target peak, the peak of the normalized output is the smaller of the
  target peak and 1, hence the target peak itself whenever that is at most 1; an array
  whose peak is zero or at least the target peak is returned unchanged; and the output of
  an array whose peak is below the target never has a peak above the target.
\<close>

theorem normalizeAudio_peak:
  "(0 < findPeak samples \<and> findPeak samples < target
      \<longrightarrow> findPeak (normalizeAudio target samples) = min target 1)
   \<and> (findPeak samples = 0 \<or> target \<le> findPeak samples
      \<longrightarrow> normalizeAudio target samples = samples)
   \<and> (findPeak samples < target \<longrightarrow> findPeak (normalizeAudio target samples) \<le> target)"
proof (intro conjI impI)
  assume "0 < findPeak samples \<and> findPeak samples < target"
  then show "findPeak (normalizeAudio target samples) = min target 1"
    by (simp add: normalizeAudio_scaled_peak)
next
  assume "findPeak samples = 0 \<or> target \<le> findPeak samples"
  then show "normalizeAudio target samples = samples" by (rule normalizeAudio_unchanged)
next
  assume lt: "findPeak samples < target"
  show "findPeak (normalizeAudio target samples) \<le> target"
  proof (cases "findPeak samples = 0")
    case True
    then show ?thesis using lt by (simp add: normalizeAudio_unchanged)
  next
    case False
    then have "0 < findPeak samples" using findPeak_ge0[of samples] by simp
    then show ?thesis using lt by (simp add: normalizeAudio_scaled_peak)
  qed
qed

text \<open>
  Claim C6, at the samples 0.5 and -0.25 with the target peak 0.95 (the output peak is
  0.95), at an all-zero array and at an array whose peak is already 1.
\<close>

theorem normalizeAudio_peak_witness:
  "findPeak [1 / 2, - 1 / 4] = 1 / 2
   \<and> findPeak (normalizeAudio (95 / 100) [1 / 2, - 1 / 4]) = 95 / 100
   \<and> normalizeAudio (95 / 100) [0, 0] = [0, 0]
   \<and> normalizeAudio (95 / 100) [1, - 1 / 4] = [1, - 1 / 4]"
proof -
  have p: "findPeak [1 / 2, - 1 / 4] = 1 / 2" "findPeak [0, 0] = 0" "findPeak [1, - 1 / 4] = 1"
    by (simp_all add: findPeak_def)
  show ?thesis
    using p normalizeAudio_peak [of "[1 / 2, - 1 / 4]" "95 / 100"]
      normalizeAudio_peak [of "[0, 0]" "95 / 100"] normalizeAudio_peak [of "[1, - 1 / 4]" "95 / 100"]
    by simp
qed

text \<open>
  Claim C7. For every state of the manager, \<open>finalize\<close> changes nothing when there is no
  chunk; otherwise it keeps the number of chunks, sets \<open>isLast\<close> on the last chunk and
  leaves every other chunk as it was; it changes no other field of the manager; and a
  second call changes nothing more. When no chunk is marked before the call, as after
  any number of calls of \<open>addChunk\<close> alone, the last chunk is the only one marked after
  it.
\<close>

theorem finalize_marks_last:
  "(chunks m = [] \<longrightarrow> finalize m = m)
   \<and> length (chunks (finalize m)) = length (chunks m)
   \<and> (\<forall>i<length (chunks m).
        chunks (finalize m) ! i
          = (if i = length (chunks m) - 1 then (chunks m ! i)\<lparr>isLast := True\<rparr> else chunks m ! i))
   \<and> finalize m = m\<lparr>chunks := chunks (finalize m)\<rparr>
   \<and> finalize (finalize m) = finalize m
   \<and> ((\<forall>c\<in>set (chunks m). \<not> isLast c)
        \<longrightarrow> (\<forall>i<length (chunks m).
               isLast (chunks (finalize m) ! i) \<longleftrightarrow> i = length (chunks m) - 1))"
proof -
  have "\<forall>i<length (chunks m). isLast (chunks (finalize m) ! i) \<longleftrightarrow> i = length (chunks m) - 1"
    if "\<forall>c\<in>set (chunks m). \<not> isLast c"
    using that by (simp add: finalize_nth)
  then show ?thesis
    using finalize_empty finalize_length finalize_nth finalize_only_chunks finalize_idem
    by blast
qed

text \<open>Claim C7, at a manager holding two chunks.\<close>

theorem finalize_marks_last_witness:
  "length (chunks (exampleManager 2 [[1, 1], [1, 1, 1]])) = 2
   \<and> \<not> isLast (chunks (exampleManager 2 [[1, 1], [1, 1, 1]]) ! 0)
   \<and> \<not> isLast (chunks (exampleManager 2 [[1, 1], [1, 1, 1]]) ! 1)
   \<and> \<not> isLast (chunks (finalize (exampleManager 2 [[1, 1], [1, 1, 1]])) ! 0)
   \<and> isLast (chunks (finalize (exampleManager 2 [[1, 1], [1, 1, 1]])) ! 1)
   \<and> finalize (finalize (exampleManager 2 [[1, 1], [1, 1, 1]]))
       = finalize (exampleManager 2 [[1, 1], [1, 1, 1]])"
proof -
  let ?m = "exampleManager 2 [[1, 1], [1, 1, 1]]"
  have h: "length (chunks ?m) = 2 \<and> \<not> isLast (chunks ?m ! 0) \<and> \<not> isLast (chunks ?m ! 1)"
    by code_simp
  show ?thesis using h finalize_marks_last [of ?m] by simp
qed

text \<open>
  Claim C4. With crossfade enabled and at least one chunk, the output of
  \<open>getConcatenatedBlob\<close> is expected to have as many samples as the chunks together
  minus (number of chunks - 1) times the crossfade sample count.

  The code, with a crossfade of 3 samples and stored chunks of 2, 1 and 3 samples: the
  offset is 2 after the first chunk and 2 + 1 - 3 = 0 after the second, so the test
  \<open>offset > 0\<close> fails for the third chunk, which is written at offset 0 without a
  crossfade. The output is the third chunk alone, 3 samples, where the formula gives
  6 - 2 * 3 = 0. With three chunks of one sample each the offset is -1 after the second
  chunk and writing the third throws a \<^verbatim>\<open>RangeError\<close>.
\<close>

theorem getConcatenatedBlob_short_chunks:
  "crossfade (exampleManager 3 [[1, 1], [1], [1, 1, 1]])
   \<and> crossfadeSamples (exampleManager 3 [[1, 1], [1], [1, 1, 1]]) = 3
   \<and> map (\<lambda>c. length (pcm c)) (chunks (exampleManager 3 [[1, 1], [1], [1, 1, 1]])) = [2, 1, 3]
   \<and> (\<Sum>c\<leftarrow>chunks (exampleManager 3 [[1, 1], [1], [1, 1, 1]]). int (length (pcm c)))
        - (int (length (chunks (exampleManager 3 [[1, 1], [1], [1, 1, 1]]))) - 1)
          * crossfadeSamples (exampleManager 3 [[1, 1], [1], [1, 1, 1]]) = 0
   \<and> map_sum id blobSamples (getConcatenatedBlob (exampleManager 3 [[1, 1], [1], [1, 1, 1]]))
        = Inr (pcm (chunks (exampleManager 3 [[1, 1], [1], [1, 1, 1]]) ! 2))
   \<and> map_sum id blobSamples (getConcatenatedBlob (exampleManager 3 [[1, 1], [1], [1, 1, 1]]))
        = Inr [0, 1 / 3, 2 / 3]
   \<and> crossfadeSamples (exampleManager 3 [[1], [1], [1]]) = 3
   \<and> getConcatenatedBlob (exampleManager 3 [[1], [1], [1]]) = Inl RangeError"
  by code_simp

section \<open>Cancellation\<close>

text \<open>
  A run that returns never leaves the session in the state \<open>Cancelled\<close>: after the loop,
  whether it ended by \<^verbatim>\<open>break\<close> or not, the state is set to \<open>Completed\<close>, and the
  \<^verbatim>\<open>catch\<close> block sets it to \<open>Error\<close>.
\<close>

lemma predictStream_never_cancelled:
  assumes "predictStream env config onChunk g = Some (result, g', chunks')"
  shows "sessionState g' \<noteq> Some Cancelled"
  using assms
  by (auto simp: predictStream_def Let_def sessionState_def setState_def catchError_def
        newAudioBufferManager_def
      split: sum.splits option.splits prod.splits)

text \<open>
  Claim C1. A cancellation issued while the session is streaming, after chunk \<open>k\<close> of
  \<open>n\<close> was delivered, is expected to give exactly \<open>k\<close> delivered chunks and the final
  state \<open>Cancelled\<close>.

  The code, on a text of three chunks with a callback that calls \<^verbatim>\<open>cancelStream()\<close> when
  it is handed the first chunk: exactly one chunk is delivered (the one with index 0),
  the run returns its metrics rather than an error, and the final state of the session is
  \<open>Completed\<close>.
\<close>

theorem predictStream_cancel_ends_completed:
  "map_option length (createTextChunks (cfg_text exampleConfig) 1 1) = Some 3
   \<and> map_option (\<lambda>r. (isl (fst r), sessionState (fst (snd r)), map index (snd (snd r))))
        (predictStream exampleEngine exampleConfig cancelAfterFirst freshGlobals)
       = Some (False, Some Completed, [0])"
  by code_simp

end
